theory Spec2Isabelle
  imports Main "HOL-Library.Word"
begin

unbundle bit_operations_syntax

section \<open>Data model\<close>

type_synonym u8 = "8 word"
type_synonym u16 = "16 word"
type_synonym u64 = "64 word"

text \<open>
  Modelled from the spec: the class \<open>MelonDsDs::Packet\<close> is declared outside
  \<open>libretro.cpp\<close>. A packet has payload bytes, a timestamp, an association id and a
  type out of Other, Cmd, Reply, Ack. The accessors used by the code are \<open>Data()\<close>,
  \<open>Length()\<close>, \<open>Timestamp()\<close>, \<open>Aid()\<close> and \<open>PacketType()\<close>. The association id is
  kept as a natural number, so that nothing is assumed about the width of its C++ type.
\<close>

datatype Type = Other | Cmd | Reply | Ack

record Packet =
  Data :: "u8 list"
  Timestamp :: u64
  Aid :: nat
  PacketType :: Type

definition Length :: "Packet \<Rightarrow> nat" where
  "Length p = length (Data p)"

text \<open>
  Modelled from the spec: the constructor \<open>Packet(data, len, timestamp, aid, type)\<close>
  takes the \<open>len\<close> bytes found at \<open>data\<close>. The argument \<open>data\<close> is the memory readable
  at the pointer; callers pass \<open>0 \<le> len \<le> length data\<close>.
\<close>

definition mk_Packet :: "u8 list \<Rightarrow> int \<Rightarrow> u64 \<Rightarrow> nat \<Rightarrow> Type \<Rightarrow> Packet" where
  "mk_Packet data len timestamp aid ty =
     \<lparr>Data = take (nat len) data, Timestamp = timestamp, Aid = aid, PacketType = ty\<rparr>"

text \<open>
  Ways in which a call does not return a value: a failed \<open>retro_assert\<close> (modelled from
  the spec as a loud contract violation), a shift by at least the width of \<open>int\<close>, and a
  \<open>memcpy\<close> outside the destination buffer. The last two are undefined behaviour in C++.
\<close>

datatype error = AssertionFailed | ShiftOutOfRange | BufferOverrun

section \<open>Local multiplayer: receiving replies\<close>

text \<open>
  \<open>1 << p.Aid()\<close> is a shift of the \<open>int\<close> constant 1; \<open>ret |= ...\<close> then truncates
  the value to 16 bits.
\<close>

definition shl_one :: "nat \<Rightarrow> error + u16" where
  "shl_one aid =
     (if aid < 32 then Inr (ucast (push_bit aid (1 :: 32 word)) :: u16)
      else Inl ShiftOutOfRange)"

text \<open>
  \<open>memcpy(&packets[off], src, n)\<close> on a destination buffer given as its list of bytes.
\<close>

definition memcpy_at :: "u8 list \<Rightarrow> int \<Rightarrow> u8 list \<Rightarrow> nat \<Rightarrow> error + u8 list" where
  "memcpy_at dst off src n =
     (if 0 \<le> off \<and> nat off + n \<le> length dst \<and> n \<le> length src
      then Inr (take (nat off) dst @ take n src @ drop (nat off + n) dst)
      else Inl BufferOverrun)"

text \<open>
  The body of the \<open>while\<close> loop of \<open>Platform::MP_RecvReplies\<close>. The relay is a state
  \<open>core\<close> of any type; \<open>MpNextPacketBlock\<close> (declared outside \<open>libretro.cpp\<close>) is a
  parameter that returns the optional packet and the next state. The loop may run
  forever, so not returning is the value \<open>None\<close>. The counter \<open>loops\<close> of the source is
  never read and is left out.
\<close>

partial_function (option) RecvReplies_loop ::
  "('c \<Rightarrow> Packet option \<times> 'c) \<Rightarrow> u64 \<Rightarrow> u16 \<Rightarrow> u16 \<Rightarrow> u8 list \<Rightarrow> 'c
     \<Rightarrow> (error + u16 \<times> u8 list \<times> 'c) option" where
  "RecvReplies_loop MpNextPacketBlock timestamp aidmask ret packets core =
     (if (ret AND aidmask) \<noteq> aidmask then
        (case MpNextPacketBlock core of
           (None, core') \<Rightarrow> Some (Inr (ret, packets, core'))
         | (Some p, core') \<Rightarrow>
             if Timestamp p < timestamp - 32 then
               RecvReplies_loop MpNextPacketBlock timestamp aidmask ret packets core'
             else if PacketType p \<noteq> Reply then
               RecvReplies_loop MpNextPacketBlock timestamp aidmask ret packets core'
             else
               (case shl_one (Aid p) of
                  Inl e \<Rightarrow> Some (Inl e)
                | Inr b \<Rightarrow>
                    (case memcpy_at packets ((int (Aid p) - 1) * 1024) (Data p)
                            (min (Length p) 1024) of
                       Inl e \<Rightarrow> Some (Inl e)
                     | Inr packets' \<Rightarrow>
                         RecvReplies_loop MpNextPacketBlock timestamp aidmask
                           (ret OR b) packets' core')))
      else Some (Inr (ret, packets, core)))"

definition MP_RecvReplies ::
  "('c \<Rightarrow> bool) \<Rightarrow> ('c \<Rightarrow> Packet option \<times> 'c) \<Rightarrow> u8 list \<Rightarrow> u64 \<Rightarrow> u16 \<Rightarrow> 'c
     \<Rightarrow> (error + u16 \<times> u8 list \<times> 'c) option" where
  "MP_RecvReplies MpActive MpNextPacketBlock packets timestamp aidmask core =
     (if \<not> MpActive core then Some (Inr (0, packets, core))
      else RecvReplies_loop MpNextPacketBlock timestamp aidmask 0 packets core)"

text \<open>
  What the successive calls of \<open>MpNextPacketBlock\<close> return, starting from a relay
  state: \<open>yields nb core i\<close> is the result of call number \<open>i\<close>.
\<close>

fun yields :: "('c \<Rightarrow> Packet option \<times> 'c) \<Rightarrow> 'c \<Rightarrow> nat \<Rightarrow> Packet option" where
  "yields nb core 0 = fst (nb core)"
| "yields nb core (Suc n) = yields nb (snd (nb core)) n"

text \<open>
  A relay whose state is the list of results still to come; once the list is used up it
  returns the empty optional, as a relay that was stopped does.
\<close>

fun scripted :: "Packet option list \<Rightarrow> Packet option \<times> Packet option list" where
  "scripted [] = (None, [])"
| "scripted (x # xs) = (x, xs)"

definition scripted_active :: "Packet option list \<Rightarrow> bool" where
  "scripted_active script \<longleftrightarrow> script \<noteq> []"

text \<open>
  \<open>replied nb core timestamp a\<close>: before the first empty result, the relay yields a
  packet of type Reply from association id \<open>a\<close> that passes the staleness test of the
  loop.
\<close>

definition replied :: "('c \<Rightarrow> Packet option \<times> 'c) \<Rightarrow> 'c \<Rightarrow> u64 \<Rightarrow> nat \<Rightarrow> bool" where
  "replied nb core timestamp a \<longleftrightarrow>
     (\<exists>i p. (\<forall>j\<le>i. yields nb core j \<noteq> None) \<and> yields nb core i = Some p \<and>
        \<not> Timestamp p < timestamp - 32 \<and> PacketType p = Reply \<and> Aid p = a)"



section \<open>Local multiplayer: sending\<close>

text \<open>
  \<open>CoreState::MpSendPacket\<close> is declared outside \<open>libretro.cpp\<close>; it is a parameter
  that takes the packet and the relay state and returns whether the host's send function
  succeeded, with the next state. The \<open>int len\<close> of the source is an \<open>int\<close> here: it is
  only handed on and returned.
\<close>

definition MP_SendPacket ::
  "(Packet \<Rightarrow> 'c \<Rightarrow> bool \<times> 'c) \<Rightarrow> u8 list \<Rightarrow> int \<Rightarrow> u64 \<Rightarrow> 'c \<Rightarrow> int \<times> 'c" where
  "MP_SendPacket MpSendPacket data len timestamp core =
     (case MpSendPacket (mk_Packet data len timestamp 0 Other) core of
        (sent, core') \<Rightarrow> (if sent then len else 0, core'))"

definition MP_SendCmd ::
  "(Packet \<Rightarrow> 'c \<Rightarrow> bool \<times> 'c) \<Rightarrow> u8 list \<Rightarrow> int \<Rightarrow> u64 \<Rightarrow> 'c \<Rightarrow> int \<times> 'c" where
  "MP_SendCmd MpSendPacket data len timestamp core =
     (case MpSendPacket (mk_Packet data len timestamp 0 Cmd) core of
        (sent, core') \<Rightarrow> (if sent then len else 0, core'))"

text \<open>
  \<open>MP_SendReply\<close> starts with \<open>retro_assert(aid < 16)\<close>; the packet is built and sent
  only after the assertion has passed.
\<close>

definition MP_SendReply ::
  "(Packet \<Rightarrow> 'c \<Rightarrow> bool \<times> 'c) \<Rightarrow> u8 list \<Rightarrow> int \<Rightarrow> u64 \<Rightarrow> u16 \<Rightarrow> 'c
     \<Rightarrow> error + int \<times> 'c" where
  "MP_SendReply MpSendPacket data len timestamp aid core =
     (if \<not> aid < 16 then Inl AssertionFailed
      else
        (case MpSendPacket (mk_Packet data len timestamp (unat aid) Reply) core of
           (sent, core') \<Rightarrow> Inr (if sent then len else 0, core')))"

definition MP_SendAck ::
  "(Packet \<Rightarrow> 'c \<Rightarrow> bool \<times> 'c) \<Rightarrow> u8 list \<Rightarrow> int \<Rightarrow> u64 \<Rightarrow> 'c \<Rightarrow> int \<times> 'c" where
  "MP_SendAck MpSendPacket data len timestamp core =
     (case MpSendPacket (mk_Packet data len timestamp 0 Cmd) core of
        (sent, core') \<Rightarrow> (if sent then len else 0, core'))"

text \<open>
  A transport that keeps every packet handed to it, in order, and answers \<open>ok\<close>.
\<close>

definition recording_send :: "bool \<Rightarrow> Packet \<Rightarrow> Packet list \<Rightarrow> bool \<times> Packet list" where
  "recording_send ok p sent = (ok, sent @ [p])"

section \<open>Local multiplayer: receiving one packet\<close>

text \<open>
  \<open>return o_p->Length()\<close> converts the 64-bit unsigned length to the \<open>int\<close> result.
\<close>

definition int_of_Length :: "nat \<Rightarrow> int" where
  "int_of_Length n = sint (word_of_nat n :: 32 word)"

text \<open>
  \<open>DeconstructPacket(data, timestamp, o_p)\<close>: the result holds the returned \<open>int\<close>, the
  caller's buffer \<open>data\<close> and the cell \<open>*timestamp\<close> after the call.
\<close>

definition DeconstructPacket ::
  "u8 list \<Rightarrow> u64 \<Rightarrow> Packet option \<Rightarrow> error + int \<times> u8 list \<times> u64" where
  "DeconstructPacket data timestamp o_p =
     (case o_p of
        None \<Rightarrow> Inr (0, data, timestamp)
      | Some p \<Rightarrow>
          (case memcpy_at data 0 (Data p) (Length p) of
             Inl e \<Rightarrow> Inl e
           | Inr data' \<Rightarrow> Inr (int_of_Length (Length p), data', Timestamp p)))"

text \<open>
  \<open>CoreState::MpNextPacket\<close> and \<open>CoreState::MpNextPacketBlock\<close> are parameters, as
  above.
\<close>

definition MP_RecvPacket ::
  "('c \<Rightarrow> Packet option \<times> 'c) \<Rightarrow> u8 list \<Rightarrow> u64 \<Rightarrow> 'c
     \<Rightarrow> (error + int \<times> u8 list \<times> u64) \<times> 'c" where
  "MP_RecvPacket MpNextPacket data timestamp core =
     (case MpNextPacket core of (o_p, core') \<Rightarrow> (DeconstructPacket data timestamp o_p, core'))"

definition MP_RecvHostPacket ::
  "('c \<Rightarrow> Packet option \<times> 'c) \<Rightarrow> u8 list \<Rightarrow> u64 \<Rightarrow> 'c
     \<Rightarrow> (error + int \<times> u8 list \<times> u64) \<times> 'c" where
  "MP_RecvHostPacket MpNextPacketBlock data timestamp core =
     (case MpNextPacketBlock core of
        (o_p, core') \<Rightarrow> (DeconstructPacket data timestamp o_p, core'))"

section \<open>Lifecycle entry points\<close>

subsection \<open>Initialisation\<close>

text \<open>
  The static buffer \<open>CoreStateBuffer\<close> holds the bytes of the \<open>CoreState\<close>. The class, its
  constructor and \<open>IsInitialized\<close> are declared outside \<open>libretro.cpp\<close>, so the contents of
  the buffer are of any type \<open>'s\<close>, and three parameters stand for the missing parts:
  \<open>IsInitialized\<close> reads the buffer, \<open>zeroed\<close> is the buffer after \<open>memset\<close> to 0, and
  \<open>constructed\<close> is the buffer after the placement-new of a \<open>CoreState\<close>. A failed
  \<open>retro_assert\<close> ends the call with \<open>AssertionFailed\<close>.
\<close>

datatype log_record = LogDebug string | LogInfo string | LogError string

record 's frontend =
  env_initialized :: bool
  task_queue_initialized :: bool
  buffer :: 's
  messages :: "log_record list"

text \<open>
  \<open>retro_init\<close>. The macros \<open>MELONDSDS_NAME\<close> and \<open>MELONDSDS_VERSION\<close> are not in
  \<open>libretro.cpp\<close>; the line they are formatted into is the parameter \<open>banner\<close>.
\<close>

definition retro_init ::
  "('s \<Rightarrow> bool) \<Rightarrow> 's \<Rightarrow> 's \<Rightarrow> string \<Rightarrow> 's frontend \<Rightarrow> error + 's frontend" where
  "retro_init IsInitialized zeroed constructed banner f =
     (let f1 = f\<lparr>env_initialized := True\<rparr>;
          f2 = f1\<lparr>messages := messages f1 @ [LogDebug ''retro_init'']\<rparr>;
          f3 = f2\<lparr>messages := messages f2 @ [LogInfo banner]\<rparr>
      in if IsInitialized (buffer f3) then Inl AssertionFailed
         else
           (let f4 = f3\<lparr>task_queue_initialized := True\<rparr>;
                f5 = f4\<lparr>buffer := zeroed\<rparr>;
                f6 = f5\<lparr>buffer := constructed\<rparr>
            in if \<not> IsInitialized (buffer f6) then Inl AssertionFailed else Inr f6))"

text \<open>
  \<open>retro_deinit\<close>: the destructor runs on the buffer, which is then set to 0.
\<close>

definition retro_deinit :: "('s \<Rightarrow> bool) \<Rightarrow> 's \<Rightarrow> 's frontend \<Rightarrow> error + 's frontend" where
  "retro_deinit IsInitialized zeroed f =
     (let f1 = f\<lparr>messages := messages f @ [LogDebug ''retro_deinit()'']\<rparr>;
          f2 = f1\<lparr>task_queue_initialized := False\<rparr>;
          f3 = f2\<lparr>buffer := zeroed\<rparr>
      in if IsInitialized (buffer f3) then Inl AssertionFailed
         else Inr (f3\<lparr>env_initialized := False\<rparr>))"

text \<open>
  Modelled from the spec: the \<open>CoreState\<close> is created on the transition to Initialized and
  destroyed on the transition to Uninitialized. The buffer holds zero bytes or a
  constructed \<open>CoreState\<close>; \<open>IsInitialized\<close> reads false from the first and true from the
  second. \<open>fresh_frontend\<close> is the process before the first \<open>retro_init\<close>, its static
  buffer zero-initialised.
\<close>

datatype CoreStateBuffer = Zeroed | Constructed

fun IsInitialized :: "CoreStateBuffer \<Rightarrow> bool" where
  "IsInitialized Zeroed = False"
| "IsInitialized Constructed = True"

definition fresh_frontend :: "CoreStateBuffer frontend" where
  "fresh_frontend =
     \<lparr>env_initialized = False, task_queue_initialized = False, buffer = Zeroed, messages = []\<rparr>"

subsection \<open>Loading content\<close>

text \<open>
  \<open>CoreState::LoadGame\<close> is a parameter that takes the game type, the content span and
  the core state. The constant \<open>MELONDSDS_GAME_TYPE_NDS\<close> is not in \<open>libretro.cpp\<close> and
  is a parameter too. The argument \<open>info\<close> of \<open>retro_load_game\<close> is a pointer to one
  \<open>retro_game_info\<close> or null; that of \<open>retro_load_game_special\<close> is the array found at
  the pointer, of which \<open>num\<close> entries are taken. The calls of \<open>retro::debug\<close> in these
  two functions only format their arguments into the log and are left out.
\<close>

definition retro_load_game ::
  "nat \<Rightarrow> (nat \<Rightarrow> 'g list \<Rightarrow> 'c \<Rightarrow> bool \<times> 'c) \<Rightarrow> 'g option \<Rightarrow> 'c \<Rightarrow> bool \<times> 'c" where
  "retro_load_game MELONDSDS_GAME_TYPE_NDS LoadGame info core =
     (let content = (case info of Some i \<Rightarrow> [i] | None \<Rightarrow> [])
      in LoadGame MELONDSDS_GAME_TYPE_NDS content core)"

definition retro_load_game_special ::
  "(nat \<Rightarrow> 'g list \<Rightarrow> 'c \<Rightarrow> bool \<times> 'c) \<Rightarrow> nat \<Rightarrow> 'g list \<Rightarrow> nat \<Rightarrow> 'c \<Rightarrow> bool \<times> 'c" where
  "retro_load_game_special LoadGame type info num core = LoadGame type (take num info) core"

text \<open>
  A \<open>LoadGame\<close> that keeps the type and content of every call and answers with
  \<open>accept\<close>.
\<close>

definition recording_LoadGame ::
  "(nat \<Rightarrow> 'g list \<Rightarrow> bool) \<Rightarrow> nat \<Rightarrow> 'g list \<Rightarrow> (nat \<times> 'g list) list
     \<Rightarrow> bool \<times> (nat \<times> 'g list) list" where
  "recording_LoadGame accept type content calls = (accept type content, calls @ [(type, content)])"

subsection \<open>Unloading content\<close>

text \<open>
  \<open>retro_unload_game\<close> calls, in this order, \<open>retro::debug\<close>, \<open>retro::task::reset\<close>,
  \<open>retro::task::wait\<close>, \<open>retro::task::deinit\<close> and \<open>CoreState::UnloadGame\<close>. None of
  the five is in \<open>libretro.cpp\<close>; each is a parameter that transforms the state of the
  process.
\<close>

definition retro_unload_game ::
  "(string \<Rightarrow> 'w \<Rightarrow> 'w) \<Rightarrow> ('w \<Rightarrow> 'w) \<Rightarrow> ('w \<Rightarrow> 'w) \<Rightarrow> ('w \<Rightarrow> 'w) \<Rightarrow> ('w \<Rightarrow> 'w) \<Rightarrow> 'w \<Rightarrow> 'w" where
  "retro_unload_game debug task_reset task_wait task_deinit UnloadGame w =
     (let w1 = debug ''retro_unload_game()'' w;
          w2 = task_reset w1;
          w3 = task_wait w2;
          w4 = task_deinit w3
      in UnloadGame w4)"

text \<open>
  Modelled from the spec: the task runner (\<open>retro/task_queue.hpp\<close>) and
  \<open>CoreState::UnloadGame\<close> are missing. \<open>reset\<close> cancels the pending tasks, \<open>wait\<close>
  blocks until every task is drained, each task running its cleanup handler, which
  flushes data to disk if needed; \<open>deinit\<close> shuts the runner down; \<open>UnloadGame\<close>
  destroys the engine instance. Every operation appends what it did to a trace.
\<close>

datatype event =
  Logged string | TasksReset | TaskCleanup nat | SaveFlushed nat | TasksDrained
  | TasksDeinit | EngineDestroyed

record task =
  task_id :: nat
  cancelled :: bool
  flushes_save :: bool

record runtime =
  tasks :: "task list"
  engine_alive :: bool
  trace :: "event list"

definition rt_debug :: "string \<Rightarrow> runtime \<Rightarrow> runtime" where
  "rt_debug msg r = r\<lparr>trace := trace r @ [Logged msg]\<rparr>"

definition rt_task_reset :: "runtime \<Rightarrow> runtime" where
  "rt_task_reset r =
     r\<lparr>tasks := map (\<lambda>t. t\<lparr>cancelled := True\<rparr>) (tasks r), trace := trace r @ [TasksReset]\<rparr>"

definition cleanup_events :: "task \<Rightarrow> event list" where
  "cleanup_events t =
     TaskCleanup (task_id t) # (if flushes_save t then [SaveFlushed (task_id t)] else [])"

definition rt_task_wait :: "runtime \<Rightarrow> runtime" where
  "rt_task_wait r =
     r\<lparr>tasks := [], trace := trace r @ concat (map cleanup_events (tasks r)) @ [TasksDrained]\<rparr>"

definition rt_task_deinit :: "runtime \<Rightarrow> runtime" where
  "rt_task_deinit r = r\<lparr>tasks := [], trace := trace r @ [TasksDeinit]\<rparr>"

definition rt_UnloadGame :: "runtime \<Rightarrow> runtime" where
  "rt_UnloadGame r = r\<lparr>engine_alive := False, trace := trace r @ [EngineDestroyed]\<rparr>"

text \<open>
  \<open>before a b tr\<close>: the event \<open>a\<close> occurs in \<open>tr\<close> ahead of the first \<open>b\<close>, and \<open>b\<close>
  does occur.
\<close>

definition before :: "event \<Rightarrow> event \<Rightarrow> event list \<Rightarrow> bool" where
  "before a b tr \<longleftrightarrow> a \<in> set (takeWhile (\<lambda>e. e \<noteq> b) tr) \<and> b \<in> set tr"

text \<open>
  A runtime with one pending task whose cleanup flushes a save, and an empty trace.
\<close>

definition save_task :: task where
  "save_task = \<lparr>task_id = 1, cancelled = False, flushes_save = True\<rparr>"

definition runtime0 :: runtime where
  "runtime0 = \<lparr>tasks = [save_task], engine_alive = True, trace = []\<rparr>"

section \<open>Fault boundary\<close>

text \<open>
  Modelled from the spec: the exception classes (\<open>exceptions.hpp\<close>) and the host
  bridge (\<open>retro::error\<close>, \<open>retro::debug\<close>, \<open>retro::set_error_message\<close>,
  \<open>retro::shutdown\<close>) are missing. An \<open>opengl_exception\<close> or \<open>emulator_exception\<close>
  carries \<open>what()\<close> and \<open>user_message()\<close>, a \<open>std::exception\<close> carries \<open>what()\<close>, and
  anything else thrown reaches only \<open>catch (...)\<close>. The host has a log, one error-message
  channel and a shutdown request.
\<close>

datatype exn =
  opengl_exception string string
  | emulator_exception string string
  | std_exception string
  | other_exception

record host =
  host_log :: "log_record list"
  error_message :: "string option"
  shutdown_requested :: bool

definition retro_debug :: "string \<Rightarrow> host \<Rightarrow> host" where
  "retro_debug msg h = h\<lparr>host_log := host_log h @ [LogDebug msg]\<rparr>"

definition retro_error :: "string \<Rightarrow> host \<Rightarrow> host" where
  "retro_error msg h = h\<lparr>host_log := host_log h @ [LogError msg]\<rparr>"

definition set_error_message :: "string \<Rightarrow> host \<Rightarrow> host" where
  "set_error_message msg h = h\<lparr>error_message := Some msg\<rparr>"

definition shutdown :: "host \<Rightarrow> host" where
  "shutdown h = h\<lparr>shutdown_requested := True\<rparr>"

text \<open>
  \<open>retro_reset\<close> and \<open>HardwareContextReset\<close>. \<open>CoreState::Reset\<close> and
  \<open>CoreState::ResetRenderState\<close> are parameters that return the exception thrown, if
  any, and the core state they leave. The first component of the result is the exception
  that leaves the entry point. The catch clauses are tried in the order of the source.
\<close>

definition retro_reset ::
  "('c \<Rightarrow> exn option \<times> 'c) \<Rightarrow> 'c \<Rightarrow> host \<Rightarrow> exn option \<times> 'c \<times> host" where
  "retro_reset Reset core h =
     (let h0 = retro_debug (''retro_reset()'' @ [CHR 0x0A]) h
      in case Reset core of
           (None, core') \<Rightarrow> (None, core', h0)
         | (Some e, core') \<Rightarrow>
             (case e of
                opengl_exception what user_message \<Rightarrow>
                  (None, core', shutdown (set_error_message user_message (retro_error what h0)))
              | emulator_exception what user_message \<Rightarrow>
                  (None, core', shutdown (set_error_message user_message (retro_error what h0)))
              | std_exception what \<Rightarrow>
                  (None, core', shutdown (set_error_message what h0))
              | other_exception \<Rightarrow>
                  (None, core',
                   shutdown (set_error_message ''An unknown error has occurred.'' h0))))"

definition HardwareContextReset ::
  "('c \<Rightarrow> exn option \<times> 'c) \<Rightarrow> 'c \<Rightarrow> host \<Rightarrow> exn option \<times> 'c \<times> host" where
  "HardwareContextReset ResetRenderState core h =
     (case ResetRenderState core of
        (None, core') \<Rightarrow> (None, core', h)
      | (Some e, core') \<Rightarrow>
          (case e of
             opengl_exception what user_message \<Rightarrow>
               (None, core', shutdown (set_error_message user_message (retro_error what h)))
           | emulator_exception what user_message \<Rightarrow>
               (None, core', shutdown (set_error_message user_message (retro_error what h)))
           | std_exception what \<Rightarrow>
               (None, core', shutdown (set_error_message what h))
           | other_exception \<Rightarrow>
               (None, core',
                shutdown (set_error_message
                  (''OpenGL context initialization failed with an unknown error. ''
                   @ ''Please report this issue.'') h))))"

text \<open>
  A \<open>Reset\<close> that throws \<open>e\<close> and leaves the core state as it was, and the message that
  the handlers put on the error channel for \<open>e\<close>; \<open>unknown\<close> is the fixed text of the
  \<open>catch (...)\<close> clause.
\<close>

definition throwing :: "exn \<Rightarrow> 'c \<Rightarrow> exn option \<times> 'c" where
  "throwing e core = (Some e, core)"

fun shown_message :: "string \<Rightarrow> exn \<Rightarrow> string" where
  "shown_message unknown (opengl_exception what user_message) = user_message"
| "shown_message unknown (emulator_exception what user_message) = user_message"
| "shown_message unknown (std_exception what) = what"
| "shown_message unknown other_exception = unknown"

fun logged_errors :: "exn \<Rightarrow> log_record list" where
  "logged_errors (opengl_exception what user_message) = [LogError what]"
| "logged_errors (emulator_exception what user_message) = [LogError what]"
| "logged_errors (std_exception what) = []"
| "logged_errors other_exception = []"

definition host0 :: host where
  "host0 = \<lparr>host_log = [], error_message = None, shutdown_requested = False\<rparr>"

section \<open>Properties of the reply loop\<close>

text \<open>
  Induction over a run of the loop that returns: one case for each way through the body.
\<close>

lemma RecvReplies_loop_induct [consumes 1, case_names satisfied deactivated skipped shift_error copy_error accepted]:
  assumes run: "RecvReplies_loop nb ts aidmask ret packets core = Some y"
    and satisfied: "\<And>ret packets core. ret AND aidmask = aidmask \<Longrightarrow>
        P ret packets core (Inr (ret, packets, core))"
    and deactivated: "\<And>ret packets core core'. ret AND aidmask \<noteq> aidmask \<Longrightarrow>
        nb core = (None, core') \<Longrightarrow> P ret packets core (Inr (ret, packets, core'))"
    and skipped: "\<And>ret packets core p core' y. ret AND aidmask \<noteq> aidmask \<Longrightarrow>
        nb core = (Some p, core') \<Longrightarrow> Timestamp p < ts - 32 \<or> PacketType p \<noteq> Reply \<Longrightarrow>
        P ret packets core' y \<Longrightarrow> P ret packets core y"
    and shift_error: "\<And>ret packets core p core' e. ret AND aidmask \<noteq> aidmask \<Longrightarrow>
        nb core = (Some p, core') \<Longrightarrow> \<not> Timestamp p < ts - 32 \<Longrightarrow> PacketType p = Reply \<Longrightarrow>
        shl_one (Aid p) = Inl e \<Longrightarrow> P ret packets core (Inl e)"
    and copy_error: "\<And>ret packets core p core' b e. ret AND aidmask \<noteq> aidmask \<Longrightarrow>
        nb core = (Some p, core') \<Longrightarrow> \<not> Timestamp p < ts - 32 \<Longrightarrow> PacketType p = Reply \<Longrightarrow>
        shl_one (Aid p) = Inr b \<Longrightarrow>
        memcpy_at packets ((int (Aid p) - 1) * 1024) (Data p) (min (Length p) 1024) = Inl e \<Longrightarrow>
        P ret packets core (Inl e)"
    and accepted: "\<And>ret packets core p core' b packets' y. ret AND aidmask \<noteq> aidmask \<Longrightarrow>
        nb core = (Some p, core') \<Longrightarrow> \<not> Timestamp p < ts - 32 \<Longrightarrow> PacketType p = Reply \<Longrightarrow>
        shl_one (Aid p) = Inr b \<Longrightarrow>
        memcpy_at packets ((int (Aid p) - 1) * 1024) (Data p) (min (Length p) 1024) = Inr packets' \<Longrightarrow>
        P (ret OR b) packets' core' y \<Longrightarrow> P ret packets core y"
  shows "P ret packets core y"
proof -
  have "nb' = nb \<and> ts' = ts \<and> aidmask' = aidmask \<longrightarrow> P ret packets core y"
    if "RecvReplies_loop nb' ts' aidmask' ret packets core = Some y" for nb' ts' aidmask'
    using that
  proof (rule RecvReplies_loop.raw_induct[where P = "\<lambda>nb' ts' aidmask' ret packets core y.
            nb' = nb \<and> ts' = ts \<and> aidmask' = aidmask \<longrightarrow> P ret packets core y", rotated])
    fix loop nb' ts' aidmask' ret packets core y
    assume IH: "\<And>nb' ts' aidmask' ret packets core y.
        loop nb' ts' aidmask' ret packets core = Some y \<Longrightarrow>
        nb' = nb \<and> ts' = ts \<and> aidmask' = aidmask \<longrightarrow> P ret packets core y"
      and step: "(if ret AND aidmask' \<noteq> aidmask' then
        (case nb' core of
           (None, core') \<Rightarrow> Some (Inr (ret, packets, core'))
         | (Some p, core') \<Rightarrow>
             if Timestamp p < ts' - 32 then loop nb' ts' aidmask' ret packets core'
             else if PacketType p \<noteq> Reply then loop nb' ts' aidmask' ret packets core'
             else
               (case shl_one (Aid p) of
                  Inl e \<Rightarrow> Some (Inl e)
                | Inr b \<Rightarrow>
                    (case memcpy_at packets ((int (Aid p) - 1) * 1024) (Data p)
                            (min (Length p) 1024) of
                       Inl e \<Rightarrow> Some (Inl e)
                     | Inr packets' \<Rightarrow> loop nb' ts' aidmask' (ret OR b) packets' core')))
      else Some (Inr (ret, packets, core))) = Some y"
    show "nb' = nb \<and> ts' = ts \<and> aidmask' = aidmask \<longrightarrow> P ret packets core y"
    proof
      assume eqs: "nb' = nb \<and> ts' = ts \<and> aidmask' = aidmask"
      from IH have IH': "\<And>ret packets core y. loop nb ts aidmask ret packets core = Some y
                \<Longrightarrow> P ret packets core y" by blast
      show "P ret packets core y"
      proof (cases "ret AND aidmask = aidmask")
        case True
        with step eqs show ?thesis using satisfied by auto
      next
        case unsat: False
        obtain o_p c1 where nb: "nb core = (o_p, c1)" by (cases "nb core")
        show ?thesis
        proof (cases o_p)
          case None
          with step eqs unsat nb deactivated[OF unsat] show ?thesis by auto
        next
          case (Some p)
          show ?thesis
          proof (cases "Timestamp p < ts - 32 \<or> PacketType p \<noteq> Reply")
            case True
            with step eqs unsat nb Some have "loop nb ts aidmask ret packets c1 = Some y"
              by (auto split: if_splits)
            from skipped[OF unsat _ True IH'[OF this]] nb Some show ?thesis by simp
          next
            case False
            then have f: "\<not> Timestamp p < ts - 32" and t: "PacketType p = Reply" by auto
            show ?thesis
            proof (cases "shl_one (Aid p)")
              case (Inl e)
              with step eqs unsat nb Some f t have "y = Inl e" by simp
              with shift_error[OF unsat _ f t Inl] nb Some show ?thesis by simp
            next
              case (Inr b)
              show ?thesis
              proof (cases "memcpy_at packets ((int (Aid p) - 1) * 1024) (Data p) (min (Length p) 1024)")
                case e: (Inl e)
                with step eqs unsat nb Some f t Inr have "y = Inl e" by simp
                with copy_error[OF unsat _ f t Inr e] nb Some show ?thesis by simp
              next
                case k: (Inr packets')
                with step eqs unsat nb Some f t Inr
                have "loop nb ts aidmask (ret OR b) packets' c1 = Some y" by simp
                from accepted[OF unsat _ f t Inr k IH'[OF this]] nb Some show ?thesis by simp
              qed
            qed
          qed
        qed
      qed
    qed
  qed
  from this[OF run] show ?thesis by simp
qed

lemma shl_one_bit:
  "shl_one aid = Inr b \<Longrightarrow> bit b a \<longleftrightarrow> a = aid \<and> aid < 16"
  by (auto simp: shl_one_def bit_ucast_iff bit_exp_iff split: if_splits)

lemma loop_keeps_bits:
  "RecvReplies_loop nb ts aidmask ret packets core = Some y
   \<Longrightarrow> (\<forall>r packets' core'. y = Inr (r, packets', core') \<longrightarrow> (\<forall>a. bit ret a \<longrightarrow> bit r a))"
proof (induction rule: RecvReplies_loop_induct)
  case (accepted ret packets core p core' b packets' y)
  then show ?case by (auto simp: bit_or_iff)
qed auto

lemma replied_later:
  "fst (nb core) \<noteq> None \<Longrightarrow> replied nb (snd (nb core)) ts a \<Longrightarrow> replied nb core ts a"
  unfolding replied_def
proof (elim exE conjE)
  fix i p
  assume h: "fst (nb core) \<noteq> None" "\<forall>j\<le>i. yields nb (snd (nb core)) j \<noteq> None"
    "yields nb (snd (nb core)) i = Some p" "\<not> Timestamp p < ts - 32" "PacketType p = Reply" "Aid p = a"
  have "\<forall>j\<le>Suc i. yields nb core j \<noteq> None"
  proof (intro allI impI)
    fix j assume "j \<le> Suc i"
    then show "yields nb core j \<noteq> None" using h(1,2) by (cases j) auto
  qed
  with h show "\<exists>i p. (\<forall>j\<le>i. yields nb core j \<noteq> None) \<and> yields nb core i = Some p \<and>
        \<not> Timestamp p < ts - 32 \<and> PacketType p = Reply \<and> Aid p = a"
    by (intro exI[of _ "Suc i"] exI[of _ p]) simp
qed

lemma replied_now:
  "nb core = (Some p, core') \<Longrightarrow> \<not> Timestamp p < ts - 32 \<Longrightarrow> PacketType p = Reply
   \<Longrightarrow> replied nb core ts (Aid p)"
  unfolding replied_def by (intro exI[of _ 0] exI[of _ p]) simp

lemma loop_bits_replied:
  "RecvReplies_loop nb ts aidmask ret packets core = Some y
   \<Longrightarrow> (\<forall>r packets' core'. y = Inr (r, packets', core') \<longrightarrow>
          (\<forall>a. bit r a \<longrightarrow> bit ret a \<or> replied nb core ts a))"
proof (induction rule: RecvReplies_loop_induct)
  case (skipped ret packets core p core' y)
  then show ?case using replied_later[of nb core ts] by fastforce
next
  case (accepted ret packets core p core' b packets' y)
  show ?case
  proof (intro allI impI)
    fix r packets'' core'' a
    assume y: "y = Inr (r, packets'', core'')" and a: "bit r a"
    with accepted have "bit (ret OR b) a \<or> replied nb core' ts a" by blast
    then consider "bit ret a" | "bit b a" | "replied nb core' ts a" by (auto simp: bit_or_iff)
    then show "bit ret a \<or> replied nb core ts a"
    proof cases
      case 2
      with shl_one_bit[OF accepted(5)] have "a = Aid p" by simp
      with replied_now[of nb core p core' ts, OF accepted(2,3,4)] show ?thesis by simp
    next
      case 3
      with replied_later[of nb core ts a] accepted(2) show ?thesis by simp
    qed simp
  qed
qed auto

lemma replied_cases:
  assumes "replied nb core ts a" and "nb core = (Some p, core')"
  shows "(\<not> Timestamp p < ts - 32 \<and> PacketType p = Reply \<and> Aid p = a) \<or> replied nb core' ts a"
proof -
  from assms(1) obtain i q where h: "\<forall>j\<le>i. yields nb core j \<noteq> None" "yields nb core i = Some q"
    "\<not> Timestamp q < ts - 32" "PacketType q = Reply" "Aid q = a"
    unfolding replied_def by blast
  show ?thesis
  proof (cases i)
    case 0
    with h assms(2) show ?thesis by simp
  next
    case (Suc k)
    have "\<forall>j\<le>k. yields nb core' j \<noteq> None"
    proof (intro allI impI)
      fix j assume "j \<le> k"
      with Suc have "Suc j \<le> i" by simp
      with h(1) have "yields nb core (Suc j) \<noteq> None" by blast
      with assms(2) show "yields nb core' j \<noteq> None" by simp
    qed
    moreover from h(2) Suc assms(2) have "yields nb core' k = Some q" by simp
    ultimately have "replied nb core' ts a" unfolding replied_def using h(3-5) by blast
    then show ?thesis by simp
  qed
qed

lemma not_replied_deactivated:
  "nb core = (None, core') \<Longrightarrow> \<not> replied nb core ts a"
  unfolding replied_def
proof
  assume h: "nb core = (None, core')" and "\<exists>i p. (\<forall>j\<le>i. yields nb core j \<noteq> None) \<and> yields nb core i = Some p \<and>
        \<not> Timestamp p < ts - 32 \<and> PacketType p = Reply \<and> Aid p = a"
  then obtain i where "\<forall>j\<le>i. yields nb core j \<noteq> None" by blast
  then have "yields nb core 0 \<noteq> None" by blast
  with h show False by simp
qed

lemma loop_collects_aux:
  "RecvReplies_loop nb ts aidmask ret packets core = Some y
   \<Longrightarrow> (\<forall>r packets' core'. y = Inr (r, packets', core') \<longrightarrow>
          (\<forall>a. bit ret a \<longrightarrow> bit r a) \<and>
          (r AND aidmask = aidmask \<or> (\<forall>a<16. replied nb core ts a \<longrightarrow> bit r a)))"
proof (induction rule: RecvReplies_loop_induct)
  case (deactivated ret packets core core')
  then show ?case using not_replied_deactivated by fastforce
next
  case (skipped ret packets core p core' y)
  then show ?case using replied_cases[of nb core ts _ p core'] by blast
next
  case (accepted ret packets core p core' b packets' y)
  show ?case
  proof (intro allI impI)
    fix r packets'' core''
    assume y: "y = Inr (r, packets'', core'')"
    with accepted(7) have keep: "\<forall>a. bit (ret OR b) a \<longrightarrow> bit r a"
      and "r AND aidmask = aidmask \<or> (\<forall>a<16. replied nb core' ts a \<longrightarrow> bit r a)"
      by blast+
    then consider "r AND aidmask = aidmask" | "\<forall>a<16. replied nb core' ts a \<longrightarrow> bit r a"
      by blast
    then have "r AND aidmask = aidmask \<or> (\<forall>a<16. replied nb core ts a \<longrightarrow> bit r a)"
    proof cases
      case 2
      have "bit r a" if "a < 16" "replied nb core ts a" for a
      proof -
        from replied_cases[of nb core ts a p core', OF that(2) accepted(2)]
        show ?thesis
        proof
          assume "\<not> Timestamp p < ts - 32 \<and> PacketType p = Reply \<and> Aid p = a"
          with shl_one_bit[OF accepted(5), of a] that have "bit (ret OR b) a" by (simp add: bit_or_iff)
          with keep show ?thesis by blast
        next
          assume "replied nb core' ts a"
          with 2 that show ?thesis by simp
        qed
      qed
      then show ?thesis by simp
    qed simp
    moreover from keep have "\<forall>a. bit ret a \<longrightarrow> bit r a" by (simp add: bit_or_iff)
    ultimately show "(\<forall>a. bit ret a \<longrightarrow> bit r a) \<and>
          (r AND aidmask = aidmask \<or> (\<forall>a<16. replied nb core ts a \<longrightarrow> bit r a))" by simp
  qed
qed auto

lemma subset_bits:
  fixes r :: u16
  shows "r AND m = m \<longleftrightarrow> (\<forall>a<16. bit m a \<longrightarrow> bit r a)"
proof
  assume "r AND m = m"
  then have "bit m a = (bit r a \<and> bit m a)" for a by (metis bit_and_iff)
  then show "\<forall>a<16. bit m a \<longrightarrow> bit r a" by blast
next
  assume h: "\<forall>a<16. bit m a \<longrightarrow> bit r a"
  show "r AND m = m"
  proof (rule bit_word_eqI)
    fix n assume "n < LENGTH(16)"
    with h show "bit (r AND m) n = bit m n" by (auto simp: bit_and_iff)
  qed
qed


section \<open>Claims about the reply loop\<close>

text \<open>
  C1, as the code has it. When \<open>MP_RecvReplies\<close> returns \<open>r\<close>, every bit of \<open>r\<close> is
  the association id (below 16) of a Reply packet that passed the staleness test and was
  yielded while the relay was active and before the first empty result; such a bit need
  not be a bit of \<open>aidmask\<close>. The result contains all of \<open>aidmask\<close> exactly when such a
  packet was yielded for every association id whose bit is set in \<open>aidmask\<close>.
\<close>

theorem MP_RecvReplies_result:
  assumes "MP_RecvReplies MpActive nb packets ts aidmask core = Some (Inr (r, packets', core'))"
  shows "(\<forall>a. bit r a \<longrightarrow> a < 16 \<and> MpActive core \<and> replied nb core ts a) \<and>
         (r AND aidmask = aidmask \<longleftrightarrow>
            (\<forall>a<16. bit aidmask a \<longrightarrow> MpActive core \<and> replied nb core ts a))"
proof (cases "MpActive core")
  case False
  with assms have r: "r = 0" by (simp add: MP_RecvReplies_def)
  have "(0 AND aidmask = aidmask) = (\<forall>a<16. \<not> bit aidmask a)"
    using subset_bits[of 0 aidmask] by simp
  with r False show ?thesis by simp
next
  case True
  with assms have run: "RecvReplies_loop nb ts aidmask 0 packets core = Some (Inr (r, packets', core'))"
    by (simp add: MP_RecvReplies_def)
  from loop_bits_replied[OF run] have 1: "\<forall>a. bit r a \<longrightarrow> replied nb core ts a" by simp
  from loop_collects_aux[OF run]
  have 2: "r AND aidmask = aidmask \<or> (\<forall>a<16. replied nb core ts a \<longrightarrow> bit r a)" by simp
  have 3: "bit r a \<Longrightarrow> a < 16" for a using bit_imp_le_length[of r a] by simp
  have "r AND aidmask = aidmask \<longleftrightarrow> (\<forall>a<16. bit aidmask a \<longrightarrow> replied nb core ts a)"
    using 1 2 subset_bits[of r aidmask] by blast
  with True 1 3 show ?thesis by simp
qed

lemma two_replies_run:
  "MP_RecvReplies scripted_active scripted (replicate 1024 0) 100 2
     [Some \<lparr>Data = [], Timestamp = 100, Aid = 2, PacketType = Reply\<rparr>,
      Some \<lparr>Data = [], Timestamp = 100, Aid = 1, PacketType = Reply\<rparr>]
   = Some (Inr (6, replicate 1024 0, []))"
  by (simp add: MP_RecvReplies_def scripted_active_def RecvReplies_loop.simps shl_one_def
      memcpy_at_def Length_def)

theorem MP_RecvReplies_result_witness:
  "MP_RecvReplies scripted_active scripted (replicate 1024 0) 100 2
     [Some \<lparr>Data = [], Timestamp = 100, Aid = 2, PacketType = Reply\<rparr>,
      Some \<lparr>Data = [], Timestamp = 100, Aid = 1, PacketType = Reply\<rparr>]
   = Some (Inr (6, replicate 1024 0, [])) \<and>
   replied scripted
     [Some \<lparr>Data = [], Timestamp = 100, Aid = 2, PacketType = Reply\<rparr>,
      Some \<lparr>Data = [], Timestamp = 100, Aid = 1, PacketType = Reply\<rparr>] 100 1 \<and>
   replied scripted
     [Some \<lparr>Data = [], Timestamp = 100, Aid = 2, PacketType = Reply\<rparr>,
      Some \<lparr>Data = [], Timestamp = 100, Aid = 1, PacketType = Reply\<rparr>] 100 2"
proof -
  have b1: "bit (6 :: u16) 1" and b2: "bit (6 :: u16) 2"
    by (simp_all add: bit_iff_odd drop_bit_eq_div)
  from MP_RecvReplies_result [OF two_replies_run] b1 b2 two_replies_run
  show ?thesis by blast
qed

text \<open>
  C1 as stated fails: with \<open>aidmask = 2\<close>, a Reply from association id 2 followed by a
  Reply from association id 1 gives the result 6, which has a bit outside \<open>aidmask\<close> and
  differs from \<open>aidmask\<close> although every requested reply arrived.
\<close>

theorem MP_RecvReplies_not_subset:
  "MP_RecvReplies scripted_active scripted (replicate 1024 0) 100 2
     [Some \<lparr>Data = [], Timestamp = 100, Aid = 2, PacketType = Reply\<rparr>,
      Some \<lparr>Data = [], Timestamp = 100, Aid = 1, PacketType = Reply\<rparr>]
   = Some (Inr (6, replicate 1024 0, [])) \<and> (6 :: u16) AND NOT 2 \<noteq> 0 \<and> (6 :: u16) \<noteq> 2"
  by (simp add: MP_RecvReplies_def scripted_active_def RecvReplies_loop.simps shl_one_def
      memcpy_at_def Length_def)




lemma loop_returns:
  "yields nb core n = None \<Longrightarrow> \<exists>y. RecvReplies_loop nb ts aidmask ret packets core = Some y"
proof (induction n arbitrary: ret packets core)
  case 0
  then show ?case
    by (subst RecvReplies_loop.simps) (auto split: prod.splits option.splits)
next
  case (Suc n)
  then show ?case 
    by (subst RecvReplies_loop.simps) (auto split: prod.splits option.splits sum.splits)
qed








text \<open>
  C3. If \<open>MpActive\<close> is false at entry, \<open>MP_RecvReplies\<close> returns 0 and leaves buffer and
  relay alone. In an iteration where \<open>MpNextPacketBlock\<close> returns the empty optional the
  loop returns at once, with the bits collected so far. Whenever some call of
  \<open>MpNextPacketBlock\<close> would return the empty optional, \<open>MP_RecvReplies\<close> returns (it does
  not run forever). The result can be a strict subset of \<open>aidmask\<close>: with \<open>aidmask = 6\<close>
  and one Reply from association id 1 before the relay stops, it is 2.
\<close>

theorem MP_RecvReplies_deactivation:
  "(\<not> MpActive core \<longrightarrow>
      MP_RecvReplies MpActive nb packets ts aidmask core = Some (Inr (0, packets, core))) \<and>
   (ret AND aidmask \<noteq> aidmask \<and> nb core = (None, core') \<longrightarrow>
      RecvReplies_loop nb ts aidmask ret packets core = Some (Inr (ret, packets, core'))) \<and>
   (yields nb core n = None \<longrightarrow>
      (\<exists>y. MP_RecvReplies MpActive nb packets ts aidmask core = Some y)) \<and>
   MP_RecvReplies scripted_active scripted [] 100 6
      [Some \<lparr>Data = [], Timestamp = 100, Aid = 1, PacketType = Reply\<rparr>, None]
     = Some (Inr (2, [], [])) \<and> (2 :: u16) AND NOT 6 = 0 \<and> (2 :: u16) \<noteq> 6"
proof (intro conjI impI)
  assume "\<not> MpActive core"
  then show "MP_RecvReplies MpActive nb packets ts aidmask core = Some (Inr (0, packets, core))"
    by (simp add: MP_RecvReplies_def)
next
  assume "ret AND aidmask \<noteq> aidmask \<and> nb core = (None, core')"
  then show "RecvReplies_loop nb ts aidmask ret packets core = Some (Inr (ret, packets, core'))"
    by (subst RecvReplies_loop.simps) simp
next
  assume "yields nb core n = None"
  from loop_returns[OF this]
  show "\<exists>y. MP_RecvReplies MpActive nb packets ts aidmask core = Some y"
    by (simp add: MP_RecvReplies_def)
next
  show "MP_RecvReplies scripted_active scripted [] 100 6
      [Some \<lparr>Data = [], Timestamp = 100, Aid = 1, PacketType = Reply\<rparr>, None]
     = Some (Inr (2, [], []))"
    by (simp add: MP_RecvReplies_def scripted_active_def RecvReplies_loop.simps shl_one_def
      memcpy_at_def Length_def)
qed simp_all

theorem MP_RecvReplies_deactivation_witness:
  "MP_RecvReplies scripted_active scripted [] 100 6 [] = Some (Inr (0, [], [])) \<and>
   RecvReplies_loop scripted 100 6 2 []
      [None, Some \<lparr>Data = [], Timestamp = 100, Aid = 2, PacketType = Reply\<rparr>]
     = Some (Inr (2, [], [Some \<lparr>Data = [], Timestamp = 100, Aid = 2, PacketType = Reply\<rparr>])) \<and>
   (\<exists>y. MP_RecvReplies scripted_active scripted [] 100 6
      [Some \<lparr>Data = [], Timestamp = 100, Aid = 7, PacketType = Cmd\<rparr>, None,
       Some \<lparr>Data = [], Timestamp = 100, Aid = 2, PacketType = Reply\<rparr>] = Some y)"
proof -
  have a: "\<not> scripted_active []" by (simp add: scripted_active_def)
  have b: "(2 :: u16) AND 6 \<noteq> 6 \<and>
    scripted [None, Some \<lparr>Data = [], Timestamp = 100, Aid = 2, PacketType = Reply\<rparr>]
      = (None, [Some \<lparr>Data = [], Timestamp = 100, Aid = 2, PacketType = Reply\<rparr>])" by simp
  have c: "yields scripted [Some \<lparr>Data = [], Timestamp = 100, Aid = 7, PacketType = Cmd\<rparr>, None,
       Some \<lparr>Data = [], Timestamp = 100, Aid = 2, PacketType = Reply\<rparr>] (Suc 0) = None" by simp
  from MP_RecvReplies_deactivation [where MpActive = scripted_active and core = "[]"
      and nb = scripted and packets = "[]" and ts = 100 and aidmask = 6] a
  have 1: "MP_RecvReplies scripted_active scripted [] 100 6 [] = Some (Inr (0, [], []))"
    by blast
  from MP_RecvReplies_deactivation [where nb = scripted and packets = "[]" and ts = 100
      and aidmask = 6 and ret = 2
      and core = "[None, Some \<lparr>Data = [], Timestamp = 100, Aid = 2, PacketType = Reply\<rparr>]"
      and core' = "[Some \<lparr>Data = [], Timestamp = 100, Aid = 2, PacketType = Reply\<rparr>]"] b
  have 2: "RecvReplies_loop scripted 100 6 2 []
      [None, Some \<lparr>Data = [], Timestamp = 100, Aid = 2, PacketType = Reply\<rparr>]
     = Some (Inr (2, [], [Some \<lparr>Data = [], Timestamp = 100, Aid = 2, PacketType = Reply\<rparr>]))"
    by blast
  from MP_RecvReplies_deactivation [where MpActive = scripted_active and nb = scripted
      and packets = "[]" and ts = 100 and aidmask = 6 and n = "Suc 0"
      and core = "[Some \<lparr>Data = [], Timestamp = 100, Aid = 7, PacketType = Cmd\<rparr>, None,
       Some \<lparr>Data = [], Timestamp = 100, Aid = 2, PacketType = Reply\<rparr>]"] c
  have 3: "\<exists>y. MP_RecvReplies scripted_active scripted [] 100 6
      [Some \<lparr>Data = [], Timestamp = 100, Aid = 7, PacketType = Cmd\<rparr>, None,
       Some \<lparr>Data = [], Timestamp = 100, Aid = 2, PacketType = Reply\<rparr>] = Some y"
    by blast
  from 1 2 3 show ?thesis by blast
qed

section \<open>Claims about the lifecycle entry points\<close>

lemma cleanup_events_cancelled: "cleanup_events (t\<lparr>cancelled := c\<rparr>) = cleanup_events t"
  by (simp add: cleanup_events_def)

lemma unload_trace:
  "trace (retro_unload_game rt_debug rt_task_reset rt_task_wait rt_task_deinit rt_UnloadGame r)
     = trace r @ [Logged ''retro_unload_game()'', TasksReset]
       @ concat (map cleanup_events (tasks r)) @ [TasksDrained, TasksDeinit, EngineDestroyed]"
  by (simp add: retro_unload_game_def rt_debug_def rt_task_reset_def rt_task_wait_def
      rt_task_deinit_def rt_UnloadGame_def Let_def cleanup_events_cancelled comp_def)

lemma before_append:
  assumes "b \<notin> set xs" and "a \<in> set xs"
  shows "before a b (xs @ b # ys)"
proof -
  have "takeWhile (\<lambda>e. e \<noteq> b) (xs @ b # ys) = xs @ takeWhile (\<lambda>e. e \<noteq> b) (b # ys)"
    by (rule takeWhile_append2) (use assms(1) in auto)
  with assms(2) show ?thesis by (simp add: before_def)
qed

lemma cleanup_in:
  "t \<in> set ts \<Longrightarrow> TaskCleanup (task_id t) \<in> set (concat (map cleanup_events ts)) \<and>
     (flushes_save t \<longrightarrow> SaveFlushed (task_id t) \<in> set (concat (map cleanup_events ts)))"
  by (auto simp: cleanup_events_def)

lemma cleanup_only:
  "e \<in> set (concat (map cleanup_events ts)) \<Longrightarrow> (\<exists>n. e = TaskCleanup n \<or> e = SaveFlushed n)"
  by (auto simp: cleanup_events_def split: if_splits)

text \<open>
  C4. \<open>retro_unload_game\<close> applies \<open>reset\<close>, then \<open>wait\<close>, then \<open>deinit\<close> of the task
  runner, and \<open>CoreState::UnloadGame\<close> to the state they leave, whatever the four
  operations are. With the task runner of the spec, the trace of the call is: the debug
  line, the reset, the cleanup (and save flush) of every pending task, the end of the
  wait, the deinit, the destruction of the engine. So the three calls are in this order
  and ahead of the destruction, and every task's cleanup, with the save flush it does,
  comes before the engine is destroyed.
\<close>

theorem retro_unload_game_order:
  "retro_unload_game debug task_reset task_wait task_deinit UnloadGame w
     = UnloadGame (task_deinit (task_wait (task_reset (debug ''retro_unload_game()'' w)))) \<and>
   trace (retro_unload_game rt_debug rt_task_reset rt_task_wait rt_task_deinit rt_UnloadGame r)
     = trace r @ [Logged ''retro_unload_game()'', TasksReset]
       @ concat (map cleanup_events (tasks r)) @ [TasksDrained, TasksDeinit, EngineDestroyed] \<and>
   (trace r = [] \<longrightarrow>
      before TasksReset TasksDrained
        (trace (retro_unload_game rt_debug rt_task_reset rt_task_wait rt_task_deinit rt_UnloadGame r)) \<and>
      before TasksDrained TasksDeinit
        (trace (retro_unload_game rt_debug rt_task_reset rt_task_wait rt_task_deinit rt_UnloadGame r)) \<and>
      before TasksDeinit EngineDestroyed
        (trace (retro_unload_game rt_debug rt_task_reset rt_task_wait rt_task_deinit rt_UnloadGame r))) \<and>
   (trace r = [] \<and> t \<in> set (tasks r) \<longrightarrow>
      before (TaskCleanup (task_id t)) EngineDestroyed
        (trace (retro_unload_game rt_debug rt_task_reset rt_task_wait rt_task_deinit rt_UnloadGame r)) \<and>
      (flushes_save t \<longrightarrow>
         before (SaveFlushed (task_id t)) EngineDestroyed
           (trace (retro_unload_game rt_debug rt_task_reset rt_task_wait rt_task_deinit rt_UnloadGame r))))"
proof -
  let ?tr = "trace (retro_unload_game rt_debug rt_task_reset rt_task_wait rt_task_deinit rt_UnloadGame r)"
  let ?cl = "concat (map cleanup_events (tasks r))"
  have tr: "?tr = trace r @ [Logged ''retro_unload_game()'', TasksReset]
       @ ?cl @ [TasksDrained, TasksDeinit, EngineDestroyed]"
    by (rule unload_trace)
  have cl: "TasksDrained \<notin> set ?cl" "TasksDeinit \<notin> set ?cl" "EngineDestroyed \<notin> set ?cl"
    using cleanup_only[of _ "tasks r"] by blast+
  have order: "before TasksReset TasksDrained ?tr \<and> before TasksDrained TasksDeinit ?tr \<and>
      before TasksDeinit EngineDestroyed ?tr" if e: "trace r = []"
  proof -
    have 1: "?tr = ([Logged ''retro_unload_game()'', TasksReset] @ ?cl)
        @ TasksDrained # [TasksDeinit, EngineDestroyed]"
      by (simp add: tr e)
    have 2: "?tr = ([Logged ''retro_unload_game()'', TasksReset] @ ?cl @ [TasksDrained])
        @ TasksDeinit # [EngineDestroyed]"
      by (simp add: tr e)
    have 3: "?tr = ([Logged ''retro_unload_game()'', TasksReset] @ ?cl
        @ [TasksDrained, TasksDeinit]) @ EngineDestroyed # []"
      by (simp add: tr e)
    have "before TasksReset TasksDrained ?tr"
      unfolding 1 by (rule before_append) (use cl in simp_all)
    moreover have "before TasksDrained TasksDeinit ?tr"
      unfolding 2 by (rule before_append) (use cl in simp_all)
    moreover have "before TasksDeinit EngineDestroyed ?tr"
      unfolding 3 by (rule before_append) (use cl in simp_all)
    ultimately show ?thesis by blast
  qed
  have cleanup: "before (TaskCleanup (task_id t)) EngineDestroyed ?tr \<and>
      (flushes_save t \<longrightarrow> before (SaveFlushed (task_id t)) EngineDestroyed ?tr)"
    if e: "trace r = []" and t: "t \<in> set (tasks r)"
  proof -
    have 3: "?tr = ([Logged ''retro_unload_game()'', TasksReset] @ ?cl
        @ [TasksDrained, TasksDeinit]) @ EngineDestroyed # []"
      by (simp add: tr e)
    have "before (TaskCleanup (task_id t)) EngineDestroyed ?tr"
      unfolding 3 by (rule before_append) (use cl cleanup_in[OF t] in simp_all)
    moreover have "before (SaveFlushed (task_id t)) EngineDestroyed ?tr" if "flushes_save t"
      unfolding 3 by (rule before_append) (use cl cleanup_in[OF t] that in simp_all)
    ultimately show ?thesis by blast
  qed
  have comp: "retro_unload_game debug task_reset task_wait task_deinit UnloadGame w
     = UnloadGame (task_deinit (task_wait (task_reset (debug ''retro_unload_game()'' w))))"
    by (simp add: retro_unload_game_def Let_def)
  show ?thesis
  proof (intro conjI)
    show "trace r = [] \<longrightarrow>
      before TasksReset TasksDrained ?tr \<and> before TasksDrained TasksDeinit ?tr \<and>
      before TasksDeinit EngineDestroyed ?tr"
      by (rule impI) (rule order)
    show "trace r = [] \<and> t \<in> set (tasks r) \<longrightarrow>
      before (TaskCleanup (task_id t)) EngineDestroyed ?tr \<and>
      (flushes_save t \<longrightarrow> before (SaveFlushed (task_id t)) EngineDestroyed ?tr)"
    proof (rule impI, elim conjE)
      assume "trace r = []" and "t \<in> set (tasks r)"
      then show "before (TaskCleanup (task_id t)) EngineDestroyed ?tr \<and>
        (flushes_save t \<longrightarrow> before (SaveFlushed (task_id t)) EngineDestroyed ?tr)"
        by (rule cleanup)
    qed
  qed (rule comp, rule tr)
qed

theorem retro_unload_game_order_witness:
  "before TasksReset TasksDrained
     (trace (retro_unload_game rt_debug rt_task_reset rt_task_wait rt_task_deinit rt_UnloadGame runtime0)) \<and>
   before TasksDrained TasksDeinit
     (trace (retro_unload_game rt_debug rt_task_reset rt_task_wait rt_task_deinit rt_UnloadGame runtime0)) \<and>
   before TasksDeinit EngineDestroyed
     (trace (retro_unload_game rt_debug rt_task_reset rt_task_wait rt_task_deinit rt_UnloadGame runtime0)) \<and>
   before (TaskCleanup 1) EngineDestroyed
     (trace (retro_unload_game rt_debug rt_task_reset rt_task_wait rt_task_deinit rt_UnloadGame runtime0)) \<and>
   before (SaveFlushed 1) EngineDestroyed
     (trace (retro_unload_game rt_debug rt_task_reset rt_task_wait rt_task_deinit rt_UnloadGame runtime0)) \<and>
   trace (retro_unload_game rt_debug rt_task_reset rt_task_wait rt_task_deinit rt_UnloadGame runtime0)
     = [Logged ''retro_unload_game()'', TasksReset, TaskCleanup 1, SaveFlushed 1, TasksDrained,
        TasksDeinit, EngineDestroyed]"
proof -
  let ?tr = "trace (retro_unload_game rt_debug rt_task_reset rt_task_wait rt_task_deinit
    rt_UnloadGame runtime0)"
  have h: "trace runtime0 = []" "save_task \<in> set (tasks runtime0)" "flushes_save save_task"
    by (simp_all add: runtime0_def save_task_def)
  have i: "task_id save_task = 1" "tasks runtime0 = [save_task]"
    by (simp_all add: runtime0_def save_task_def)
  note inst = retro_unload_game_order [where r = runtime0 and t = save_task]
  note tr = inst [THEN conjunct2, THEN conjunct1]
  from inst [THEN conjunct2, THEN conjunct2, THEN conjunct1] h(1)
  have 1: "before TasksReset TasksDrained ?tr \<and> before TasksDrained TasksDeinit ?tr \<and>
      before TasksDeinit EngineDestroyed ?tr" by (rule mp)
  from h(1,2) have "trace runtime0 = [] \<and> save_task \<in> set (tasks runtime0)" by (rule conjI)
  with inst [THEN conjunct2, THEN conjunct2, THEN conjunct2]
  have "before (TaskCleanup (task_id save_task)) EngineDestroyed ?tr \<and>
      (flushes_save save_task \<longrightarrow> before (SaveFlushed (task_id save_task)) EngineDestroyed ?tr)"
    by (rule mp)
  with h(3) have 2: "before (TaskCleanup 1) EngineDestroyed ?tr \<and>
      before (SaveFlushed 1) EngineDestroyed ?tr"
    by (simp only: i simp_thms)
  from tr have 3: "?tr = [Logged ''retro_unload_game()'', TasksReset, TaskCleanup 1, SaveFlushed 1,
      TasksDrained, TasksDeinit, EngineDestroyed]"
    by (simp add: h i cleanup_events_def)
  from 1 2 3 show ?thesis by (intro conjI) (elim conjE, assumption)+
qed

section \<open>Claims about the fault boundary\<close>

lemma retro_reset_caught:
  "Reset core = (Some e, core') \<Longrightarrow>
   retro_reset Reset core h =
     (None, core',
      \<lparr>host_log = host_log h @ [LogDebug (''retro_reset()'' @ [CHR 0x0A])] @ logged_errors e,
       error_message = Some (shown_message ''An unknown error has occurred.'' e),
       shutdown_requested = True\<rparr>)"
  by (cases e) (simp_all add: retro_reset_def retro_debug_def retro_error_def
      set_error_message_def shutdown_def)

lemma HardwareContextReset_caught:
  "ResetRenderState core = (Some e, core') \<Longrightarrow>
   HardwareContextReset ResetRenderState core h =
     (None, core',
      \<lparr>host_log = host_log h @ logged_errors e,
       error_message = Some (shown_message
         (''OpenGL context initialization failed with an unknown error. ''
          @ ''Please report this issue.'') e),
       shutdown_requested = True\<rparr>)"
  by (cases e) (simp_all add: HardwareContextReset_def retro_error_def
      set_error_message_def shutdown_def)

lemma retro_reset_returns: "fst (retro_reset Reset core h) = None"
  by (simp add: retro_reset_def Let_def split: prod.splits option.splits exn.splits)

lemma HardwareContextReset_returns: "fst (HardwareContextReset ResetRenderState core h) = None"
  by (simp add: HardwareContextReset_def split: prod.splits option.splits exn.splits)

text \<open>
  C5, as the code has it. Whatever \<open>CoreState::Reset\<close> throws inside \<open>retro_reset\<close>, and
  \<open>CoreState::ResetRenderState\<close> inside \<open>HardwareContextReset\<close>, is caught: the error
  channel of the host gets a message (the exception's user message, its \<open>what()\<close> for a
  \<open>std::exception\<close>, a fixed text otherwise), a shutdown is requested, and no exception
  leaves the entry point. An error record is written to the log for an
  \<open>opengl_exception\<close> and an \<open>emulator_exception\<close> only.
\<close>

theorem fault_boundary:
  "(Reset core = (Some e, core') \<longrightarrow>
      fst (snd (retro_reset Reset core h)) = core' \<and>
      error_message (snd (snd (retro_reset Reset core h)))
        = Some (shown_message ''An unknown error has occurred.'' e) \<and>
      shutdown_requested (snd (snd (retro_reset Reset core h))) \<and>
      host_log (snd (snd (retro_reset Reset core h)))
        = host_log h @ [LogDebug (''retro_reset()'' @ [CHR 0x0A])] @ logged_errors e) \<and>
   (ResetRenderState core = (Some e, core') \<longrightarrow>
      fst (snd (HardwareContextReset ResetRenderState core h)) = core' \<and>
      error_message (snd (snd (HardwareContextReset ResetRenderState core h)))
        = Some (shown_message
            (''OpenGL context initialization failed with an unknown error. ''
             @ ''Please report this issue.'') e) \<and>
      shutdown_requested (snd (snd (HardwareContextReset ResetRenderState core h))) \<and>
      host_log (snd (snd (HardwareContextReset ResetRenderState core h)))
        = host_log h @ logged_errors e) \<and>
   fst (retro_reset Reset core h) = None \<and>
   fst (HardwareContextReset ResetRenderState core h) = None"
proof (intro conjI impI)
  assume "Reset core = (Some e, core')"
  then have r: "retro_reset Reset core h =
     (None, core',
      \<lparr>host_log = host_log h @ [LogDebug (''retro_reset()'' @ [CHR 0x0A])] @ logged_errors e,
       error_message = Some (shown_message ''An unknown error has occurred.'' e),
       shutdown_requested = True\<rparr>)"
    by (rule retro_reset_caught)
  show "fst (snd (retro_reset Reset core h)) = core'"
    and "error_message (snd (snd (retro_reset Reset core h)))
        = Some (shown_message ''An unknown error has occurred.'' e)"
    and "shutdown_requested (snd (snd (retro_reset Reset core h)))"
    and "host_log (snd (snd (retro_reset Reset core h)))
        = host_log h @ [LogDebug (''retro_reset()'' @ [CHR 0x0A])] @ logged_errors e"
    by (simp_all add: r)
next
  assume "ResetRenderState core = (Some e, core')"
  then have r: "HardwareContextReset ResetRenderState core h =
     (None, core',
      \<lparr>host_log = host_log h @ logged_errors e,
       error_message = Some (shown_message
         (''OpenGL context initialization failed with an unknown error. ''
          @ ''Please report this issue.'') e),
       shutdown_requested = True\<rparr>)"
    by (rule HardwareContextReset_caught)
  show "fst (snd (HardwareContextReset ResetRenderState core h)) = core'"
    and "error_message (snd (snd (HardwareContextReset ResetRenderState core h)))
        = Some (shown_message
            (''OpenGL context initialization failed with an unknown error. ''
             @ ''Please report this issue.'') e)"
    and "shutdown_requested (snd (snd (HardwareContextReset ResetRenderState core h)))"
    and "host_log (snd (snd (HardwareContextReset ResetRenderState core h)))
        = host_log h @ logged_errors e"
    by (simp_all add: r)
qed (rule retro_reset_returns, rule HardwareContextReset_returns)

theorem fault_boundary_witness:
  "error_message (snd (snd (retro_reset (throwing (opengl_exception ''GL 0x0506'' ''No OpenGL''))
      () host0))) = Some ''No OpenGL'' \<and>
   shutdown_requested (snd (snd (retro_reset (throwing (opengl_exception ''GL 0x0506'' ''No OpenGL''))
      () host0))) \<and>
   host_log (snd (snd (retro_reset (throwing (opengl_exception ''GL 0x0506'' ''No OpenGL''))
      () host0))) = [LogDebug (''retro_reset()'' @ [CHR 0x0A]), LogError ''GL 0x0506''] \<and>
   error_message (snd (snd (HardwareContextReset (throwing other_exception) () host0)))
     = Some (''OpenGL context initialization failed with an unknown error. ''
             @ ''Please report this issue.'') \<and>
   shutdown_requested (snd (snd (HardwareContextReset (throwing other_exception) () host0))) \<and>
   host_log (snd (snd (HardwareContextReset (throwing other_exception) () host0))) = []"
proof -
  have t: "throwing e () = (Some e, ())" for e by (simp add: throwing_def)
  have l: "host_log host0 = []" by (simp add: host0_def)
  from fault_boundary [where Reset = "throwing (opengl_exception ''GL 0x0506'' ''No OpenGL'')"
      and core = "()" and core' = "()" and e = "opengl_exception ''GL 0x0506'' ''No OpenGL''"
      and h = host0, THEN conjunct1] t
  have 1: "error_message (snd (snd (retro_reset (throwing (opengl_exception ''GL 0x0506'' ''No OpenGL''))
      () host0))) = Some ''No OpenGL'' \<and>
   shutdown_requested (snd (snd (retro_reset (throwing (opengl_exception ''GL 0x0506'' ''No OpenGL''))
      () host0))) \<and>
   host_log (snd (snd (retro_reset (throwing (opengl_exception ''GL 0x0506'' ''No OpenGL''))
      () host0))) = [LogDebug (''retro_reset()'' @ [CHR 0x0A]), LogError ''GL 0x0506'']"
    by (simp add: l)
  from fault_boundary [where ResetRenderState = "throwing other_exception"
      and core = "()" and core' = "()" and e = other_exception
      and h = host0, THEN conjunct2, THEN conjunct1] t
  have 2: "error_message (snd (snd (HardwareContextReset (throwing other_exception) () host0)))
     = Some (''OpenGL context initialization failed with an unknown error. ''
             @ ''Please report this issue.'') \<and>
   shutdown_requested (snd (snd (HardwareContextReset (throwing other_exception) () host0))) \<and>
   host_log (snd (snd (HardwareContextReset (throwing other_exception) () host0))) = []"
    by (simp add: l)
  from 1 2 show ?thesis by (intro conjI) (elim conjE, assumption)+
qed

text \<open>
  C5 as stated fails: a \<open>std::exception\<close> thrown inside \<open>HardwareContextReset\<close> sets the
  error message and requests the shutdown, and the log stays empty.
\<close>

theorem fault_boundary_no_log:
  "host_log (snd (snd (HardwareContextReset (throwing (std_exception ''boom'')) () host0))) = [] \<and>
   error_message (snd (snd (HardwareContextReset (throwing (std_exception ''boom'')) () host0)))
     = Some ''boom'' \<and>
   shutdown_requested (snd (snd (HardwareContextReset (throwing (std_exception ''boom'')) () host0)))"
  by (simp add: HardwareContextReset_def throwing_def host0_def set_error_message_def shutdown_def)

section \<open>Claims about loading and initialisation\<close>

text \<open>
  C6. \<open>retro_load_game\<close> hands \<open>LoadGame\<close> the type \<open>MELONDSDS_GAME_TYPE_NDS\<close> and a
  span of no item for a null \<open>info\<close>, of exactly one item otherwise;
  \<open>retro_load_game_special\<close> hands on the type it was given and \<open>num\<close> items. A
  \<open>LoadGame\<close> that records its calls sees one call per standard load, with fewer than
  two items, and sees a list of two items when it comes through
  \<open>retro_load_game_special\<close>. No standard load submits two items, so none can build an
  engine from two items or move the state machine with them.
\<close>

theorem retro_load_game_content:
  "retro_load_game nds LoadGame None core = LoadGame nds [] core \<and>
   retro_load_game nds LoadGame (Some i) core = LoadGame nds [i] core \<and>
   retro_load_game_special LoadGame type items num core = LoadGame type (take num items) core \<and>
   list_all (\<lambda>(t, content). t = nds \<and> length content = (if info = None then 0 else 1))
     (drop (length calls) (snd (retro_load_game nds (recording_LoadGame accept) info calls))) \<and>
   length (snd (retro_load_game nds (recording_LoadGame accept) info calls)) = length calls + 1 \<and>
   snd (retro_load_game_special (recording_LoadGame accept) type [a, b] 2 calls)
     = calls @ [(type, [a, b])]"
  by (cases info) (simp_all add: retro_load_game_def retro_load_game_special_def
      recording_LoadGame_def Let_def)

text \<open>
  C7. \<open>retro_init\<close> on a process whose \<open>CoreState\<close> reads as initialised fails its
  assertion. When \<open>retro_init\<close> returns, the \<open>CoreState\<close> was not initialised at entry, the
  buffer holds the newly constructed \<open>CoreState\<close>, \<open>IsInitialized\<close> is true, and a second
  \<open>retro_init\<close> right after it fails the assertion. When \<open>retro_deinit\<close> returns, the buffer
  is zeroed and \<open>IsInitialized\<close> is false. If \<open>IsInitialized\<close> is true of a constructed
  \<open>CoreState\<close> and false of the zeroed buffer, then \<open>retro_init\<close> returns whenever the
  \<open>CoreState\<close> is not initialised, \<open>retro_deinit\<close> always returns, and a \<open>retro_init\<close> after
  it returns too.
\<close>

theorem retro_init_deinit:
  "(init (buffer f) \<longrightarrow> retro_init init zeroed constructed banner f = Inl AssertionFailed) \<and>
   (retro_init init zeroed constructed banner f = Inr f' \<longrightarrow>
      \<not> init (buffer f) \<and> buffer f' = constructed \<and> init (buffer f') \<and>
      retro_init init zeroed constructed banner f' = Inl AssertionFailed) \<and>
   (retro_deinit init zeroed f = Inr f' \<longrightarrow> buffer f' = zeroed \<and> \<not> init (buffer f')) \<and>
   (init constructed \<and> \<not> init zeroed \<longrightarrow>
      (\<not> init (buffer f) \<longrightarrow> (\<exists>g. retro_init init zeroed constructed banner f = Inr g)) \<and>
      (\<exists>g. retro_deinit init zeroed f = Inr g \<and>
         (\<exists>g'. retro_init init zeroed constructed banner g = Inr g')))"
  by (auto simp: retro_init_def retro_deinit_def Let_def split: if_splits)

theorem retro_init_deinit_witness:
  "(\<exists>g. retro_init IsInitialized Zeroed Constructed ''melonDS DS'' fresh_frontend = Inr g \<and>
      buffer g = Constructed \<and>
      retro_init IsInitialized Zeroed Constructed ''melonDS DS'' g = Inl AssertionFailed \<and>
      (\<exists>g'. retro_deinit IsInitialized Zeroed g = Inr g' \<and> buffer g' = Zeroed \<and>
         (\<exists>g''. retro_init IsInitialized Zeroed Constructed ''melonDS DS'' g' = Inr g''))) \<and>
   retro_init IsInitialized Zeroed Constructed ''melonDS DS'' (fresh_frontend\<lparr>buffer := Constructed\<rparr>)
     = Inl AssertionFailed"
proof -
  have p: "IsInitialized Constructed \<and> \<not> IsInitialized Zeroed" by simp
  have a: "\<not> IsInitialized (buffer fresh_frontend)" by (simp add: fresh_frontend_def)
  have b: "IsInitialized (buffer (fresh_frontend\<lparr>buffer := Constructed\<rparr>))" by simp
  note inst = retro_init_deinit [where init = IsInitialized and zeroed = Zeroed
      and constructed = Constructed and banner = "''melonDS DS''"]
  from inst [where f = fresh_frontend] p a
  obtain g where g: "retro_init IsInitialized Zeroed Constructed ''melonDS DS'' fresh_frontend = Inr g"
    by blast
  from inst [where f = fresh_frontend and f' = g] g
  have g2: "buffer g = Constructed"
    "retro_init IsInitialized Zeroed Constructed ''melonDS DS'' g = Inl AssertionFailed"
    by blast+
  from inst [where f = g] p
  obtain g' g'' where g': "retro_deinit IsInitialized Zeroed g = Inr g'"
    "retro_init IsInitialized Zeroed Constructed ''melonDS DS'' g' = Inr g''"
    by blast
  from inst [where f = g and f' = g'] g'(1) have g3: "buffer g' = Zeroed" by blast
  from inst [where f = "fresh_frontend\<lparr>buffer := Constructed\<rparr>"] b
  have 2: "retro_init IsInitialized Zeroed Constructed ''melonDS DS''
      (fresh_frontend\<lparr>buffer := Constructed\<rparr>) = Inl AssertionFailed"
    by blast
  from g g2 g' g3 2 show ?thesis by blast
qed

section \<open>Claims about sending and receiving packets\<close>

text \<open>
  C8. \<open>MP_SendAck\<close> does what \<open>MP_SendCmd\<close> does on the same arguments, for every
  transport; the one packet it hands to the transport has type Cmd and association id 0.
\<close>

theorem MP_SendAck_is_SendCmd:
  "MP_SendAck MpSendPacket data len timestamp core
     = MP_SendCmd MpSendPacket data len timestamp core \<and>
   MP_SendAck (recording_send ok) data len timestamp sent
     = (if ok then len else 0,
        sent @ [\<lparr>Data = take (nat len) data, Timestamp = timestamp, Aid = 0, PacketType = Cmd\<rparr>])"
  by (simp add: MP_SendAck_def MP_SendCmd_def recording_send_def mk_Packet_def)

text \<open>
  C9. Each of \<open>MP_SendPacket\<close>, \<open>MP_SendCmd\<close>, \<open>MP_SendAck\<close> and, once its assertion
  \<open>aid < 16\<close> has passed, \<open>MP_SendReply\<close> returns \<open>len\<close> if \<open>MpSendPacket\<close> returns true
  for the packet built and 0 if it returns false; for \<open>len \<noteq> 0\<close> the result is \<open>len\<close>
  exactly when the send succeeded. A failed send is a returned 0, never an error.
\<close>

theorem MP_Send_result:
  "(fst (MP_SendPacket MpSendPacket data len timestamp core)
      = (if fst (MpSendPacket (mk_Packet data len timestamp 0 Other) core) then len else 0)) \<and>
   (fst (MP_SendCmd MpSendPacket data len timestamp core)
      = (if fst (MpSendPacket (mk_Packet data len timestamp 0 Cmd) core) then len else 0)) \<and>
   (fst (MP_SendAck MpSendPacket data len timestamp core)
      = (if fst (MpSendPacket (mk_Packet data len timestamp 0 Cmd) core) then len else 0)) \<and>
   (aid < 16 \<longrightarrow>
      map_sum id fst (MP_SendReply MpSendPacket data len timestamp aid core)
        = Inr (if fst (MpSendPacket (mk_Packet data len timestamp (unat aid) Reply) core)
               then len else 0)) \<and>
   (len \<noteq> 0 \<longrightarrow>
      (fst (MP_SendPacket MpSendPacket data len timestamp core) = len
         \<longleftrightarrow> fst (MpSendPacket (mk_Packet data len timestamp 0 Other) core)) \<and>
      (fst (MP_SendCmd MpSendPacket data len timestamp core) = len
         \<longleftrightarrow> fst (MpSendPacket (mk_Packet data len timestamp 0 Cmd) core)) \<and>
      (fst (MP_SendAck MpSendPacket data len timestamp core) = len
         \<longleftrightarrow> fst (MpSendPacket (mk_Packet data len timestamp 0 Cmd) core)) \<and>
      (aid < 16 \<longrightarrow>
         (map_sum id fst (MP_SendReply MpSendPacket data len timestamp aid core) = Inr len
            \<longleftrightarrow> fst (MpSendPacket (mk_Packet data len timestamp (unat aid) Reply) core))))"
  by (auto simp: MP_SendPacket_def MP_SendCmd_def MP_SendAck_def MP_SendReply_def
      split: prod.splits)

theorem MP_Send_result_witness:
  "map_sum id fst (MP_SendReply (recording_send False) [1, 2, 3] 3 100 5 []) = Inr 0 \<and>
   map_sum id fst (MP_SendReply (recording_send True) [1, 2, 3] 3 100 5 []) = Inr 3 \<and>
   fst (MP_SendPacket (recording_send True) [1, 2, 3] 3 100 []) = 3 \<and>
   fst (MP_SendCmd (recording_send True) [1, 2, 3] 3 100 []) = 3 \<and>
   fst (MP_SendAck (recording_send True) [1, 2, 3] 3 100 []) = 3"
proof -
  have a: "(5 :: u16) < 16" and l: "(3 :: int) \<noteq> 0" by simp_all
  have f: "fst (recording_send ok p s) = ok" for ok p and s :: "Packet list"
    by (simp add: recording_send_def)
  from MP_Send_result [of "recording_send False" "[1, 2, 3]" 3 100 "[]" 5] a
  have 1: "map_sum id fst (MP_SendReply (recording_send False) [1, 2, 3] 3 100 5 []) = Inr 0"
    by (simp only: f if_False)
  from MP_Send_result [of "recording_send True" "[1, 2, 3]" 3 100 "[]" 5] a l
  have 2: "map_sum id fst (MP_SendReply (recording_send True) [1, 2, 3] 3 100 5 []) = Inr 3 \<and>
   fst (MP_SendPacket (recording_send True) [1, 2, 3] 3 100 []) = 3 \<and>
   fst (MP_SendCmd (recording_send True) [1, 2, 3] 3 100 []) = 3 \<and>
   fst (MP_SendAck (recording_send True) [1, 2, 3] 3 100 []) = 3"
    by (simp only: f if_True simp_thms)
  from 1 2 show ?thesis by blast
qed

lemma int_of_Length_small:
  assumes "n < 2 ^ 31"
  shows "int_of_Length n = int n"
proof -
  from assms have "int n < 2 ^ 31" by (metis of_nat_less_iff of_nat_numeral of_nat_power)
  then have "signed_take_bit 31 (int n) = int n"
    by (intro signed_take_bit_int_eq_self) simp_all
  then show ?thesis
    unfolding int_of_Length_def by (simp add: signed_of_nat)
qed

lemma memcpy_at_front:
  "length src \<le> length dst \<Longrightarrow> memcpy_at dst 0 src (length src) = Inr (src @ drop (length src) dst)"
  by (simp add: memcpy_at_def)

text \<open>
  C10. When the relay has no packet, \<open>MP_RecvPacket\<close> and \<open>MP_RecvHostPacket\<close> return 0
  and leave the buffer \<open>data\<close> and \<open>*timestamp\<close> as they were. When it has the packet
  \<open>p\<close> (which fits the buffer, and whose length fits an \<open>int\<close>), the first \<open>Length p\<close>
  bytes of the buffer become the payload, the rest of the buffer stays, \<open>*timestamp\<close>
  becomes the packet's timestamp and \<open>Length p\<close> is returned.
\<close>

theorem MP_Recv_frame:
  "(fst (nb core) = None \<longrightarrow>
      fst (MP_RecvPacket nb data timestamp core) = Inr (0, data, timestamp) \<and>
      fst (MP_RecvHostPacket nb data timestamp core) = Inr (0, data, timestamp)) \<and>
   (fst (nb core) = Some p \<and> Length p \<le> length data \<and> Length p < 2 ^ 31 \<longrightarrow>
      fst (MP_RecvPacket nb data timestamp core)
        = Inr (int (Length p), Data p @ drop (Length p) data, Timestamp p) \<and>
      fst (MP_RecvHostPacket nb data timestamp core)
        = Inr (int (Length p), Data p @ drop (Length p) data, Timestamp p))"
  by (auto simp: MP_RecvPacket_def MP_RecvHostPacket_def DeconstructPacket_def Length_def
      memcpy_at_front int_of_Length_small split: prod.splits)

theorem MP_Recv_frame_witness:
  "fst (MP_RecvPacket scripted [9, 9, 9] 7 []) = Inr (0, [9, 9, 9], 7) \<and>
   fst (MP_RecvHostPacket scripted [9, 9, 9] 7 [None]) = Inr (0, [9, 9, 9], 7) \<and>
   fst (MP_RecvPacket scripted [9, 9, 9] 7
          [Some \<lparr>Data = [1, 2], Timestamp = 100, Aid = 0, PacketType = Cmd\<rparr>])
     = Inr (2, [1, 2, 9], 100) \<and>
   fst (MP_RecvHostPacket scripted [9, 9, 9] 7
          [Some \<lparr>Data = [1, 2], Timestamp = 100, Aid = 0, PacketType = Cmd\<rparr>])
     = Inr (2, [1, 2, 9], 100)"
proof -
  have n: "fst (scripted []) = None" "fst (scripted [None]) = None" by simp_all
  have s: "fst (scripted [Some \<lparr>Data = [1, 2], Timestamp = 100, Aid = 0, PacketType = Cmd\<rparr>])
      = Some \<lparr>Data = [1, 2], Timestamp = 100, Aid = 0, PacketType = Cmd\<rparr> \<and>
    Length \<lparr>Data = [1, 2], Timestamp = 100, Aid = 0, PacketType = Cmd\<rparr> \<le> length [9, 9, 9 :: u8] \<and>
    Length \<lparr>Data = [1, 2], Timestamp = 100, Aid = 0, PacketType = Cmd\<rparr> < 2 ^ 31"
    by (simp add: Length_def)
  from MP_Recv_frame [where nb = scripted and core = "[]" and data = "[9, 9, 9]" and timestamp = 7] n
  have 1: "fst (MP_RecvPacket scripted [9, 9, 9] 7 []) = Inr (0, [9, 9, 9], 7)" by blast
  from MP_Recv_frame [where nb = scripted and core = "[None]" and data = "[9, 9, 9]" and timestamp = 7] n
  have 2: "fst (MP_RecvHostPacket scripted [9, 9, 9] 7 [None]) = Inr (0, [9, 9, 9], 7)" by blast
  from MP_Recv_frame [where nb = scripted and data = "[9, 9, 9]" and timestamp = 7
      and core = "[Some \<lparr>Data = [1, 2], Timestamp = 100, Aid = 0, PacketType = Cmd\<rparr>]"
      and p = "\<lparr>Data = [1, 2], Timestamp = 100, Aid = 0, PacketType = Cmd\<rparr>"] s
  have 3: "fst (MP_RecvPacket scripted [9, 9, 9] 7
          [Some \<lparr>Data = [1, 2], Timestamp = 100, Aid = 0, PacketType = Cmd\<rparr>])
     = Inr (2, [1, 2, 9], 100) \<and>
   fst (MP_RecvHostPacket scripted [9, 9, 9] 7
          [Some \<lparr>Data = [1, 2], Timestamp = 100, Aid = 0, PacketType = Cmd\<rparr>])
     = Inr (2, [1, 2, 9], 100)"
    by (simp add: Length_def)
  from 1 2 3 show ?thesis by blast
qed

end
